theory Spec2Isabelle
  imports Main "HOL-Library.AList"
begin

section \<open>JSON values\<close>

text \<open>
  Request payloads and stored documents are JavaScript objects that came out of a JSON
  parser. An object is an association list in key order; a key is looked up with
  \<open>map_of\<close> (first binding), set with \<open>AList.update\<close> and removed with
  \<open>AList.delete\<close>.
\<close>

datatype json =
    JNull
  | JBool bool
  | JNum int
  | JStr string
  | JArr "json list"
  | JObj "(string \<times> json) list"

type_synonym obj = "(string \<times> json) list"

section \<open>The document store\<close>

text \<open>
  A Food document is its store-assigned id together with its fields; the owner reference
  is the field \<open>owner\<close>. Ids are handed out from a counter and never reused.
  The collection keeps the documents in insertion order. \<open>users\<close> is the collection
  that \<open>populate('owner')\<close> resolves owner references in. \<open>in_flight\<close> holds the ids
  of the deletions that a request has started without waiting for them and that the
  store has not carried out yet.
\<close>

type_synonym doc = "nat \<times> obj"

record db =
  foods :: "doc list"
  next_id :: nat
  users :: "(string \<times> obj) list"
  in_flight :: "nat list"

definition init_db :: "(string \<times> obj) list \<Rightarrow> db" where
  "init_db us = \<lparr>foods = [], next_id = 0, users = us, in_flight = []\<rparr>"

definition owner_of :: "obj \<Rightarrow> json option" where
  "owner_of fs = map_of fs ''owner''"

section \<open>Errors, responses and promise chains\<close>

text \<open>
  The error kinds of the API. \<open>TypeError\<close> is the JavaScript runtime error raised by a
  property access on \<open>undefined\<close>; the other kinds are the ones the API documents.
\<close>

datatype error =
    NotFound
  | Forbidden
  | Unauthorized
  | ValidationError
  | Internal
  | TypeError

datatype body =
    JsonFoods "doc list"
  | JsonFood doc
  | NoContent
  | PlainText string

text \<open>
  A handler ends either by sending a response (\<open>res.status(n).json(...)\<close>,
  \<open>res.sendStatus(n)\<close>) or by handing an error to \<open>next\<close>. An exception thrown
  synchronously inside a route handler is handed to \<open>next\<close> by the framework.
\<close>

datatype outcome = Respond nat body | Next error

text \<open>The calls a request makes, in the order it makes them.\<close>

datatype event =
    RemoveBlanks
  | SetOwner
  | DeleteOwner
  | CallFind
  | CallFindById nat
  | CallCreate obj
  | CallUpdateOne nat obj
  | CallDeleteOne nat

fun is_store_call :: "event \<Rightarrow> bool" where
  "is_store_call RemoveBlanks = False"
| "is_store_call SetOwner = False"
| "is_store_call DeleteOwner = False"
| "is_store_call CallFind = True"
| "is_store_call (CallFindById i) = True"
| "is_store_call (CallCreate p) = True"
| "is_store_call (CallUpdateOne i p) = True"
| "is_store_call (CallDeleteOne i) = True"

fun is_write_call :: "event \<Rightarrow> bool" where
  "is_write_call (CallCreate p) = True"
| "is_write_call (CallUpdateOne i p) = True"
| "is_write_call (CallDeleteOne i) = True"
| "is_write_call e = False"

text \<open>
  A promise that has settled: rejected with an error (\<open>Inl\<close>) or fulfilled with a value
  (\<open>Inr\<close>), together with the store as it is then and the calls made so far.
\<close>

type_synonym 'a promise = "(error + 'a) \<times> db \<times> event list"

type_synonym result = "outcome \<times> db \<times> event list"

definition outcome_of :: "result \<Rightarrow> outcome" where
  "outcome_of r = fst r"

definition db_of :: "result \<Rightarrow> db" where
  "db_of r = fst (snd r)"

definition trace_of :: "result \<Rightarrow> event list" where
  "trace_of r = snd (snd r)"

text \<open>\<open>p.then(f)\<close>: a rejected promise skips \<open>f\<close>; a fulfilled one runs it on the value.\<close>

definition then_p :: "'a promise \<Rightarrow> ('a \<Rightarrow> db \<Rightarrow> 'b promise) \<Rightarrow> 'b promise" where
  "then_p p f =
     (case p of
        (Inl e, s, t) \<Rightarrow> (Inl e, s, t)
      | (Inr x, s, t) \<Rightarrow> (case f x s of (r, s', t') \<Rightarrow> (r, s', t @ t')))"

text \<open>\<open>p.catch(next)\<close>: a rejection goes to \<open>next\<close> with the error it was rejected with.\<close>

definition catch_next :: "outcome promise \<Rightarrow> result" where
  "catch_next p =
     (case p of
        (Inl e, s, t) \<Rightarrow> (Next e, s, t)
      | (Inr out, s, t) \<Rightarrow> (out, s, t))"

text \<open>A synchronous function used as a \<open>then\<close> callback: a throw rejects the chain.\<close>

definition sync :: "(error + 'a) \<Rightarrow> db \<Rightarrow> 'a promise" where
  "sync r s = (r, s, [])"

section \<open>Store operations\<close>

text \<open>
  The Food model (\<open>models/food\<close>) and the document store behind it are not part of
  the route file; each operation below is modelled from the spec. Any store call may
  fail: \<open>env\<close> says with which error the reads and the writes of one request are
  rejected, if at all.
\<close>

record env =
  find_fault :: "error option"
  write_fault :: "error option"

definition no_faults :: env where
  "no_faults = \<lparr>find_fault = None, write_fault = None\<rparr>"

text \<open>
  Modelled from the spec: \<open>Food.find()\<close>, which fetches all Food records.
\<close>

definition Food_find :: "env \<Rightarrow> db \<Rightarrow> (doc list) promise" where
  "Food_find ev s =
     (case find_fault ev of
        Some e \<Rightarrow> (Inl e, s, [CallFind])
      | None \<Rightarrow> (Inr (foods s), s, [CallFind]))"

text \<open>
  Modelled from the spec: \<open>Food.findById(id)\<close>, which looks one Food up by id and
  yields \<open>null\<close> when there is none.
\<close>

definition Food_findById :: "env \<Rightarrow> nat \<Rightarrow> db \<Rightarrow> (doc option) promise" where
  "Food_findById ev i s =
     (case find_fault ev of
        Some e \<Rightarrow> (Inl e, s, [CallFindById i])
      | None \<Rightarrow> (Inr (map_option (Pair i) (map_of (foods s) i)), s, [CallFindById i]))"

text \<open>
  Modelled from the spec: \<open>Food.create(payload)\<close>, which persists a new record with
  the fields of the payload under an id the store assigns.
\<close>

definition Food_create :: "env \<Rightarrow> obj \<Rightarrow> db \<Rightarrow> doc promise" where
  "Food_create ev payload s =
     (case write_fault ev of
        Some e \<Rightarrow> (Inl e, s, [CallCreate payload])
      | None \<Rightarrow>
          (Inr (next_id s, payload),
           s\<lparr>foods := foods s @ [(next_id s, payload)], next_id := Suc (next_id s)\<rparr>,
           [CallCreate payload]))"

text \<open>
  Modelled from the spec: \<open>food.updateOne(payload)\<close>, which applies the payload as a
  merge-update: fields not present in the payload are untouched.
\<close>

definition updateOne :: "env \<Rightarrow> doc \<Rightarrow> obj \<Rightarrow> db \<Rightarrow> unit promise" where
  "updateOne ev d payload s =
     (case write_fault ev of
        Some e \<Rightarrow> (Inl e, s, [CallUpdateOne (fst d) payload])
      | None \<Rightarrow>
          (Inr (),
           s\<lparr>foods := AList.map_entry (fst d) (\<lambda>fs. AList.merge fs payload) (foods s)\<rparr>,
           [CallUpdateOne (fst d) payload]))"

text \<open>
  Modelled from the spec: \<open>food.deleteOne()\<close>, which deletes the record for good. This
  is the promise as a caller that waits for it finds it settled.
\<close>

definition deleteOne :: "env \<Rightarrow> doc \<Rightarrow> db \<Rightarrow> unit promise" where
  "deleteOne ev d s =
     (case write_fault ev of
        Some e \<Rightarrow> (Inl e, s, [CallDeleteOne (fst d)])
      | None \<Rightarrow>
          (Inr (), s\<lparr>foods := AList.delete (fst d) (foods s)\<rparr>, [CallDeleteOne (fst d)]))"

text \<open>
  A \<open>deleteOne()\<close> whose promise the caller drops. The caller goes on at once, with the
  store as it is, and a rejection reaches nobody. A deletion that the store does not
  reject is in flight from then on: the record is still stored until the deletion is
  carried out, which is later, if ever.
\<close>

definition deleteOne_unawaited :: "env \<Rightarrow> doc \<Rightarrow> db \<Rightarrow> db \<times> event list" where
  "deleteOne_unawaited ev d s =
     (case deleteOne ev d s of
        (Inl e, s', t) \<Rightarrow> (s, t)
      | (Inr u, s', t) \<Rightarrow> (s\<lparr>in_flight := in_flight s @ [fst d]\<rparr>, t))"

text \<open>
  The store carries out the deletion of food \<open>i\<close> that is in flight; nothing happens
  when none is.
\<close>

definition land :: "nat \<Rightarrow> db \<Rightarrow> db" where
  "land i s =
     (if i \<in> set (in_flight s)
      then s\<lparr>foods := AList.delete i (foods s), in_flight := removeAll i (in_flight s)\<rparr>
      else s)"

text \<open>
  Modelled from the spec: \<open>populate('owner')\<close> of the store driver, which resolves an
  owner reference to the full owner record (\<open>null\<close> when the user is gone).
\<close>

definition populate_owner :: "db \<Rightarrow> doc \<Rightarrow> doc" where
  "populate_owner s d =
     (case owner_of (snd d) of
        Some (JStr u) \<Rightarrow>
          (fst d,
           AList.update ''owner''
             (case map_of (users s) u of Some r \<Rightarrow> JObj r | None \<Rightarrow> JNull) (snd d))
      | _ \<Rightarrow> d)"

text \<open>\<open>toObject\<close> turns a document into a plain object with the same id and fields.\<close>

definition toObject :: "doc \<Rightarrow> doc" where
  "toObject d = d"

section \<open>Helpers of the routes\<close>

text \<open>
  Modelled from the spec: \<open>handle404\<close> of \<open>lib/custom_errors\<close>, which fails with
  NotFound when the record is absent and passes it through otherwise.
\<close>

definition handle404 :: "doc option \<Rightarrow> error + doc" where
  "handle404 r = (case r of None \<Rightarrow> Inl NotFound | Some d \<Rightarrow> Inr d)"

record request =
  auth :: "string option"
  params_id :: nat
  body_food :: "obj option"

text \<open>
  Modelled from the spec: \<open>requireOwnership\<close> of \<open>lib/custom_errors\<close>, which fails
  with Forbidden when the record's owner is not the requester and returns nothing
  otherwise. It reads the requester from \<open>req.user\<close>.
\<close>

definition requireOwnership :: "request \<Rightarrow> doc \<Rightarrow> error + unit" where
  "requireOwnership req d =
     (case auth req of
        None \<Rightarrow> Inl TypeError
      | Some uid \<Rightarrow> if owner_of (snd d) \<noteq> Some (JStr uid) then Inl Forbidden else Inr ())"

text \<open>
  Modelled from the spec: \<open>removeBlanks\<close> of \<open>lib/remove_blank_fields\<close>, which removes
  every key whose value is exactly the empty string, recursively in nested objects, and
  leaves arrays and every other value as they are.
\<close>

fun removeBlanks :: "obj \<Rightarrow> obj" where
  "removeBlanks [] = []"
| "removeBlanks ((k, JStr s) # kvs) =
     (if s = [] then removeBlanks kvs else (k, JStr s) # removeBlanks kvs)"
| "removeBlanks ((k, JObj fs) # kvs) = (k, JObj (removeBlanks fs)) # removeBlanks kvs"
| "removeBlanks ((k, v) # kvs) = (k, v) # removeBlanks kvs"

text \<open>
  Modelled from the spec: the centralized error responder, which maps the error kind to
  the status code. Where the spec leaves two codes open (403 or 401, 422 or 400) this is
  the first; a TypeError is an unexpected failure.
\<close>

fun error_status :: "error \<Rightarrow> nat" where
  "error_status NotFound = 404"
| "error_status Forbidden = 403"
| "error_status Unauthorized = 401"
| "error_status ValidationError = 422"
| "error_status Internal = 500"
| "error_status TypeError = 500"

fun http_status :: "outcome \<Rightarrow> nat" where
  "http_status (Respond n b) = n"
| "http_status (Next e) = error_status e"

section \<open>The routes\<close>

text \<open>
  The request as the routes read it: \<open>auth\<close> is the user the bearer token resolves to
  (\<open>None\<close> for a missing or invalid token), \<open>params_id\<close> is \<open>req.params.id\<close>,
  \<open>body_food\<close> is \<open>req.body.food\<close>: the object under the \<open>food\<close> key of a body of
  the documented shape \<open>{food: {...}}\<close>, and \<open>None\<close> when the body has no such key.

  \<open>requireToken\<close> answers 401 itself when the token does not resolve to a user and
  otherwise sets \<open>req.user\<close> and runs the rest of the route.
\<close>

definition requireToken :: "request \<Rightarrow> db \<Rightarrow> (string \<Rightarrow> result) \<Rightarrow> result" where
  "requireToken req s rest =
     (case auth req of
        None \<Rightarrow> (Respond 401 (PlainText ''Unauthorized''), s, [])
      | Some uid \<Rightarrow> rest uid)"

text \<open>A middleware that ran before the rest of the route comes first in the trace.\<close>

definition after :: "event \<Rightarrow> result \<Rightarrow> result" where
  "after e r = (case r of (out, s, t) \<Rightarrow> (out, s, e # t))"

text \<open>INDEX, \<open>GET /foods\<close>.\<close>

definition index :: "request \<Rightarrow> env \<Rightarrow> db \<Rightarrow> result" where
  "index req ev s =
     catch_next
       (then_p
         (then_p
           (then_p (Food_find ev s)
             (\<lambda>fs. sync (Inr (map (populate_owner s) fs))))
           (\<lambda>fs. sync (Inr (map toObject fs))))
         (\<lambda>fs. sync (Inr (Respond 200 (JsonFoods fs)))))"

text \<open>SHOW, \<open>GET /foods/:id\<close>.\<close>

definition "show" :: "request \<Rightarrow> env \<Rightarrow> db \<Rightarrow> result" where
  "show req ev s =
     catch_next
       (then_p
         (then_p
           (then_p (Food_findById ev (params_id req) s)
             (\<lambda>r. sync (Inr (map_option (populate_owner s) r))))
           (\<lambda>r. sync (handle404 r)))
         (\<lambda>food. sync (Inr (Respond 200 (JsonFood (toObject food))))))"

text \<open>CREATE, \<open>POST /foods\<close>.\<close>

definition create :: "request \<Rightarrow> env \<Rightarrow> db \<Rightarrow> result" where
  "create req ev s =
     requireToken req s (\<lambda>uid.
       case body_food req of
         None \<Rightarrow> (Next TypeError, s, [])
       | Some food \<Rightarrow>
           after SetOwner
             (catch_next
               (then_p (Food_create ev (AList.update ''owner'' (JStr uid) food) s)
                 (\<lambda>food. sync (Inr (Respond 201 (JsonFood (toObject food))))))))"

text \<open>
  UPDATE, \<open>PATCH /foods/:id\<close>. The route is registered as
  \<open>requireToken, removeBlanks, handler\<close>: the sanitizer runs on the body before the
  handler does.
\<close>

definition removeBlanks_mw :: "request \<Rightarrow> request" where
  "removeBlanks_mw req = req\<lparr>body_food := map_option removeBlanks (body_food req)\<rparr>"

definition update_handler :: "request \<Rightarrow> env \<Rightarrow> db \<Rightarrow> result" where
  "update_handler req ev s =
     (case body_food req of
        None \<Rightarrow> (Next TypeError, s, [])
      | Some food \<Rightarrow>
          after DeleteOwner
            (catch_next
              (then_p
                (then_p
                  (then_p (Food_findById ev (params_id req) s)
                    (\<lambda>r. sync (handle404 r)))
                  (\<lambda>d s'.
                     case requireOwnership req d of
                       Inl e \<Rightarrow> (Inl e, s', [])
                     | Inr u \<Rightarrow> updateOne ev d (AList.delete ''owner'' food) s'))
                (\<lambda>u. sync (Inr (Respond 204 NoContent))))))"

definition update :: "request \<Rightarrow> env \<Rightarrow> db \<Rightarrow> result" where
  "update req ev s =
     requireToken req s (\<lambda>uid.
       after RemoveBlanks (update_handler (removeBlanks_mw req) ev s))"

text \<open>
  DESTROY, \<open>DELETE /foods/:id\<close>. The callback calls \<open>food.deleteOne()\<close> without
  returning its promise: the chain goes on with \<open>undefined\<close> at once, whether or not
  the deletion is rejected, and the 204 is sent while the deletion is in flight.
\<close>

definition destroy :: "request \<Rightarrow> env \<Rightarrow> db \<Rightarrow> result" where
  "destroy req ev s =
     requireToken req s (\<lambda>uid.
       catch_next
         (then_p
           (then_p
             (then_p (Food_findById ev (params_id req) s)
               (\<lambda>r. sync (handle404 r)))
             (\<lambda>d s'.
                case requireOwnership req d of
                  Inl e \<Rightarrow> (Inl e, s', [])
                | Inr u \<Rightarrow> (case deleteOne_unawaited ev d s' of (s'', t) \<Rightarrow> (Inr (), s'', t))))
           (\<lambda>u. sync (Inr (Respond 204 NoContent)))))"

section \<open>Sequences of API calls\<close>

datatype route = Index | Show | Create | Update | Destroy

fun handle :: "route \<Rightarrow> request \<Rightarrow> env \<Rightarrow> db \<Rightarrow> result" where
  "handle Index = index"
| "handle Show = show"
| "handle Create = create"
| "handle Update = update"
| "handle Destroy = destroy"

text \<open>
  What happens to the store over time: a request is handled, or the store carries out a
  deletion that is in flight. Deletions in flight land between requests, in any order,
  or never.
\<close>

datatype step = Request route request env | Landed nat

fun step_db :: "step \<Rightarrow> db \<Rightarrow> db" where
  "step_db (Request r req ev) s = db_of (handle r req ev s)"
| "step_db (Landed i) s = land i s"

fun run :: "step list \<Rightarrow> db \<Rightarrow> db" where
  "run [] s = s"
| "run (c # cs) s = run cs (step_db c s)"

section \<open>Invariants, orderings and example data\<close>

text \<open>Every id at or above the allocation counter is unused.\<close>

definition ids_fresh :: "db \<Rightarrow> bool" where
  "ids_fresh s = (\<forall>j. next_id s \<le> j \<longrightarrow> map_of (foods s) j = None)"

text \<open>
  The id \<open>i\<close> has been handed out, and the document under it, as long as there is one,
  has the owner \<open>ow\<close>.
\<close>

definition owner_kept :: "db \<Rightarrow> nat \<Rightarrow> json option \<Rightarrow> bool" where
  "owner_kept s i ow =
     (ids_fresh s \<and> i < next_id s
      \<and> (\<forall>fs. map_of (foods s) i = Some fs \<longrightarrow> owner_of fs = ow))"

text \<open>\<open>precedes a b t\<close>: in the trace \<open>t\<close> the first \<open>a\<close> is followed by a \<open>b\<close>.\<close>

fun precedes :: "event \<Rightarrow> event \<Rightarrow> event list \<Rightarrow> bool" where
  "precedes a b [] = False"
| "precedes a b (x # xs) = (if x = a then b \<in> set xs else precedes a b xs)"

text \<open>A store with one food, which belongs to \<open>ann\<close>.\<close>

definition soup_db :: db where
  "soup_db =
     \<lparr>foods = [(0, [(''owner'', JStr ''ann''), (''title'', JStr ''Soup'')])],
      next_id = 1, users = [], in_flight = []\<rparr>"

section \<open>What each route computes\<close>

lemmas chain_defs = then_p_def catch_next_def sync_def after_def requireToken_def

lemmas store_defs = Food_find_def Food_findById_def Food_create_def updateOne_def deleteOne_def
  deleteOne_unawaited_def

lemmas helper_defs = handle404_def requireOwnership_def toObject_def removeBlanks_mw_def

lemmas result_defs = outcome_of_def db_of_def trace_of_def

lemma index_cases:
  "index req ev s =
     (case find_fault ev of
        Some e \<Rightarrow> (Next e, s, [CallFind])
      | None \<Rightarrow> (Respond 200 (JsonFoods (map (populate_owner s) (foods s))), s, [CallFind]))"
  by (simp add: index_def chain_defs store_defs helper_defs split: option.splits)

lemma show_cases:
  "show req ev s =
     (case find_fault ev of
        Some e \<Rightarrow> (Next e, s, [CallFindById (params_id req)])
      | None \<Rightarrow>
          (case map_of (foods s) (params_id req) of
             None \<Rightarrow> (Next NotFound, s, [CallFindById (params_id req)])
           | Some fs \<Rightarrow>
               (Respond 200 (JsonFood (populate_owner s (params_id req, fs))), s,
                [CallFindById (params_id req)])))"
  by (simp add: show_def chain_defs store_defs helper_defs split: option.splits)

lemma create_no_token:
  "auth req = None \<Longrightarrow> create req ev s = (Respond 401 (PlainText ''Unauthorized''), s, [])"
  by (simp add: create_def chain_defs)

lemma create_no_food:
  "auth req = Some u \<Longrightarrow> body_food req = None \<Longrightarrow> create req ev s = (Next TypeError, s, [])"
  by (simp add: create_def chain_defs)

lemma create_cases:
  "auth req = Some u \<Longrightarrow> body_food req = Some p \<Longrightarrow>
   create req ev s =
     (case write_fault ev of
        Some e \<Rightarrow> (Next e, s, [SetOwner, CallCreate (AList.update ''owner'' (JStr u) p)])
      | None \<Rightarrow>
          (Respond 201 (JsonFood (next_id s, AList.update ''owner'' (JStr u) p)),
           s\<lparr>foods := foods s @ [(next_id s, AList.update ''owner'' (JStr u) p)],
              next_id := Suc (next_id s)\<rparr>,
           [SetOwner, CallCreate (AList.update ''owner'' (JStr u) p)]))"
  by (simp add: create_def chain_defs store_defs helper_defs split: option.splits)

lemma update_no_token:
  "auth req = None \<Longrightarrow> update req ev s = (Respond 401 (PlainText ''Unauthorized''), s, [])"
  by (simp add: update_def chain_defs)

lemma update_no_food:
  "auth req = Some u \<Longrightarrow> body_food req = None \<Longrightarrow>
   update req ev s = (Next TypeError, s, [RemoveBlanks])"
  by (simp add: update_def update_handler_def chain_defs helper_defs)

lemma update_cases:
  "auth req = Some u \<Longrightarrow> body_food req = Some p \<Longrightarrow>
   update req ev s =
     (case find_fault ev of
        Some e \<Rightarrow> (Next e, s, [RemoveBlanks, DeleteOwner, CallFindById (params_id req)])
      | None \<Rightarrow>
          (case map_of (foods s) (params_id req) of
             None \<Rightarrow>
               (Next NotFound, s, [RemoveBlanks, DeleteOwner, CallFindById (params_id req)])
           | Some fs \<Rightarrow>
               if owner_of fs \<noteq> Some (JStr u)
               then (Next Forbidden, s,
                     [RemoveBlanks, DeleteOwner, CallFindById (params_id req)])
               else
                 (case write_fault ev of
                    Some e \<Rightarrow>
                      (Next e, s,
                       [RemoveBlanks, DeleteOwner, CallFindById (params_id req),
                        CallUpdateOne (params_id req) (AList.delete ''owner'' (removeBlanks p))])
                  | None \<Rightarrow>
                      (Respond 204 NoContent,
                       s\<lparr>foods := AList.map_entry (params_id req)
                            (\<lambda>fs. AList.merge fs (AList.delete ''owner'' (removeBlanks p)))
                            (foods s)\<rparr>,
                       [RemoveBlanks, DeleteOwner, CallFindById (params_id req),
                        CallUpdateOne (params_id req)
                          (AList.delete ''owner'' (removeBlanks p))]))))"
  by (simp add: update_def update_handler_def chain_defs store_defs helper_defs
      split: option.splits)

lemma destroy_no_token:
  "auth req = None \<Longrightarrow> destroy req ev s = (Respond 401 (PlainText ''Unauthorized''), s, [])"
  by (simp add: destroy_def chain_defs)

lemma destroy_cases:
  "auth req = Some u \<Longrightarrow>
   destroy req ev s =
     (case find_fault ev of
        Some e \<Rightarrow> (Next e, s, [CallFindById (params_id req)])
      | None \<Rightarrow>
          (case map_of (foods s) (params_id req) of
             None \<Rightarrow> (Next NotFound, s, [CallFindById (params_id req)])
           | Some fs \<Rightarrow>
               if owner_of fs \<noteq> Some (JStr u)
               then (Next Forbidden, s, [CallFindById (params_id req)])
               else
                 (case write_fault ev of
                    Some e \<Rightarrow>
                      (Respond 204 NoContent, s,
                       [CallFindById (params_id req), CallDeleteOne (params_id req)])
                  | None \<Rightarrow>
                      (Respond 204 NoContent,
                       s\<lparr>in_flight := in_flight s @ [params_id req]\<rparr>,
                       [CallFindById (params_id req), CallDeleteOne (params_id req)]))))"
  by (simp add: destroy_def chain_defs store_defs helper_defs split: option.splits)

lemma fst_populate_owner: "fst (populate_owner s d) = fst d"
  by (simp add: populate_owner_def split: option.splits json.splits)

section \<open>Reads are open to everyone\<close>

text \<open>
  Claim C9. The read routes neither authenticate nor check ownership: the whole result of
  \<open>GET /foods\<close> is the same for any two requests, and the whole result of
  \<open>GET /foods/:id\<close> is the same for any two requests for the same id, whoever sends
  them and with whatever token.
\<close>

theorem reads_ignore_requester:
  "index req ev s = index req' ev s \<and>
   show req ev s = show (req'\<lparr>params_id := params_id req\<rparr>) ev s"
  by (simp add: index_def show_def)

section \<open>A body without a food key\<close>

text \<open>
  Claim C10. An authenticated \<open>POST /foods\<close> or \<open>PATCH /foods/:id\<close> whose body has
  no \<open>food\<close> key fails with a TypeError, which is none of NotFound, Forbidden,
  Unauthorized or ValidationError; the store is not called and not changed.
\<close>

theorem missing_food_type_error:
  assumes "auth req = Some u" and "body_food req = None"
  shows "outcome_of (create req ev s) = Next TypeError
       \<and> db_of (create req ev s) = s
       \<and> filter is_store_call (trace_of (create req ev s)) = []
       \<and> outcome_of (update req ev s) = Next TypeError
       \<and> db_of (update req ev s) = s
       \<and> filter is_store_call (trace_of (update req ev s)) = []
       \<and> TypeError \<notin> {NotFound, Forbidden, Unauthorized, ValidationError}"
  using assms by (simp add: create_no_food update_no_food result_defs)

theorem missing_food_type_error_witness:
  "auth \<lparr>auth = Some ''ann'', params_id = 0, body_food = None\<rparr> = Some ''ann''
   \<and> body_food \<lparr>auth = Some ''ann'', params_id = 0, body_food = None\<rparr> = None
   \<and> outcome_of (create \<lparr>auth = Some ''ann'', params_id = 0, body_food = None\<rparr>
        no_faults (init_db [])) = Next TypeError
   \<and> outcome_of (update \<lparr>auth = Some ''ann'', params_id = 0, body_food = None\<rparr>
        no_faults (init_db [])) = Next TypeError"
  using missing_food_type_error
    [of "\<lparr>auth = Some ''ann'', params_id = 0, body_food = None\<rparr>" "''ann''"
        no_faults "init_db []"]
  by simp

section \<open>Looking up a missing food\<close>

text \<open>
  Claim C7. When the lookup itself is not rejected by the store, \<open>GET /foods/:id\<close>
  fails with NotFound, which the error responder answers with 404, exactly when the
  store has no food with that id; when it has one, the answer is 200 with a food whose
  id is the requested one.
\<close>

theorem show_404_iff_absent:
  assumes "find_fault ev = None"
  shows "(outcome_of (show req ev s) = Next NotFound
            \<longleftrightarrow> map_of (foods s) (params_id req) = None)
       \<and> (http_status (outcome_of (show req ev s)) = 404
            \<longleftrightarrow> map_of (foods s) (params_id req) = None)
       \<and> (map_of (foods s) (params_id req) \<noteq> None \<longrightarrow>
            (\<exists>d. outcome_of (show req ev s) = Respond 200 (JsonFood d)
                \<and> fst d = params_id req))"
proof (cases "map_of (foods s) (params_id req)")
  case None
  then show ?thesis using assms by (simp add: show_cases outcome_of_def)
next
  case (Some fs)
  have "fst (populate_owner s (params_id req, fs)) = params_id req"
    by (simp add: fst_populate_owner)
  then show ?thesis using assms Some by (simp add: show_cases outcome_of_def)
qed

theorem show_404_iff_absent_witness:
  "find_fault no_faults = None
   \<and> http_status (outcome_of
        (show \<lparr>auth = None, params_id = 0, body_food = None\<rparr> no_faults soup_db)) \<noteq> 404
   \<and> (\<exists>d. outcome_of (show \<lparr>auth = None, params_id = 0, body_food = None\<rparr> no_faults soup_db)
             = Respond 200 (JsonFood d) \<and> fst d = 0)
   \<and> http_status (outcome_of
        (show \<lparr>auth = None, params_id = 7, body_food = None\<rparr> no_faults soup_db)) = 404"
  using
    show_404_iff_absent
      [of no_faults "\<lparr>auth = None, params_id = 0, body_food = None\<rparr>" soup_db]
    show_404_iff_absent
      [of no_faults "\<lparr>auth = None, params_id = 7, body_food = None\<rparr>" soup_db]
  by (simp add: no_faults_def soup_db_def)

section \<open>Deleting twice\<close>

lemma destroy_of_absent_food:
  "auth req = Some u \<Longrightarrow> find_fault ev = None \<Longrightarrow>
   map_of (foods s) (params_id req) = None \<Longrightarrow>
   outcome_of (destroy req ev s) = Next NotFound"
  by (simp add: destroy_cases outcome_of_def)

text \<open>
  Claim C8. After a \<open>DELETE /foods/:id\<close> that answered 204, the same request is to
  fail with NotFound, answered with 404, and never to answer 204 again. The route does
  not keep to it. When the store rejects the deletion, the first \<open>DELETE\<close> by the owner
  answers 204 all the same, the food is still stored, and the second \<open>DELETE\<close> answers
  204 again. When the store does not reject it, the 204 is sent while the deletion is in
  flight, and a second \<open>DELETE\<close> handled before the deletion has landed answers 204
  again; once it has landed, the second \<open>DELETE\<close> fails with NotFound, which is
  answered with 404.
\<close>

theorem destroy_twice_answers_204_again:
  "outcome_of (destroy \<lparr>auth = Some ''ann'', params_id = 0, body_food = None\<rparr>
      \<lparr>find_fault = None, write_fault = Some Internal\<rparr> soup_db) = Respond 204 NoContent
   \<and> outcome_of (destroy \<lparr>auth = Some ''ann'', params_id = 0, body_food = None\<rparr> no_faults
        (db_of (destroy \<lparr>auth = Some ''ann'', params_id = 0, body_food = None\<rparr>
           \<lparr>find_fault = None, write_fault = Some Internal\<rparr> soup_db)))
       = Respond 204 NoContent
   \<and> outcome_of (destroy \<lparr>auth = Some ''ann'', params_id = 0, body_food = None\<rparr>
        no_faults soup_db) = Respond 204 NoContent
   \<and> outcome_of (destroy \<lparr>auth = Some ''ann'', params_id = 0, body_food = None\<rparr> no_faults
        (db_of (destroy \<lparr>auth = Some ''ann'', params_id = 0, body_food = None\<rparr>
           no_faults soup_db)))
       = Respond 204 NoContent
   \<and> outcome_of (destroy \<lparr>auth = Some ''ann'', params_id = 0, body_food = None\<rparr> no_faults
        (run [Landed 0]
           (db_of (destroy \<lparr>auth = Some ''ann'', params_id = 0, body_food = None\<rparr>
              no_faults soup_db))))
       = Next NotFound
   \<and> http_status (Next NotFound) = 404"
  by (simp add: destroy_cases result_defs no_faults_def soup_db_def owner_of_def land_def)

section \<open>Only the owner mutates\<close>

text \<open>
  Claim C3. For a food owned by user \<open>a\<close> and an authenticated user \<open>b\<close> other than
  \<open>a\<close>, \<open>PATCH\<close> and \<open>DELETE\<close> on it both fail, leave the store as it was and make no
  update or delete call; the failure is the ownership error whenever the lookup is not
  rejected by the store (and, for \<open>PATCH\<close>, the body has a food).
\<close>

theorem non_owner_cannot_mutate:
  assumes "map_of (foods s) (params_id req) = Some fs" and "owner_of fs = Some (JStr a)"
    and "auth req = Some b" and "b \<noteq> a"
  shows "db_of (update req ev s) = s
       \<and> filter is_write_call (trace_of (update req ev s)) = []
       \<and> (\<exists>e. outcome_of (update req ev s) = Next e)
       \<and> (find_fault ev = None \<and> body_food req \<noteq> None \<longrightarrow>
            outcome_of (update req ev s) = Next Forbidden)
       \<and> db_of (destroy req ev s) = s
       \<and> filter is_write_call (trace_of (destroy req ev s)) = []
       \<and> (\<exists>e. outcome_of (destroy req ev s) = Next e)
       \<and> (find_fault ev = None \<longrightarrow> outcome_of (destroy req ev s) = Next Forbidden)"
proof -
  have d: "db_of (destroy req ev s) = s
       \<and> filter is_write_call (trace_of (destroy req ev s)) = []
       \<and> (\<exists>e. outcome_of (destroy req ev s) = Next e)
       \<and> (find_fault ev = None \<longrightarrow> outcome_of (destroy req ev s) = Next Forbidden)"
    using assms by (simp add: destroy_cases result_defs split: option.splits)
  have u: "db_of (update req ev s) = s
       \<and> filter is_write_call (trace_of (update req ev s)) = []
       \<and> (\<exists>e. outcome_of (update req ev s) = Next e)
       \<and> (find_fault ev = None \<and> body_food req \<noteq> None \<longrightarrow>
            outcome_of (update req ev s) = Next Forbidden)"
  proof (cases "body_food req")
    case None
    then show ?thesis using assms by (simp add: update_no_food result_defs)
  next
    case (Some p)
    then show ?thesis using assms
      by (simp add: update_cases result_defs split: option.splits)
  qed
  from d u show ?thesis by simp
qed

theorem non_owner_cannot_mutate_witness:
  "map_of (foods soup_db)
      (params_id \<lparr>auth = Some ''bob'', params_id = 0,
                  body_food = Some [(''title'', JStr ''Mud'')]\<rparr>)
     = Some [(''owner'', JStr ''ann''), (''title'', JStr ''Soup'')]
   \<and> owner_of [(''owner'', JStr ''ann''), (''title'', JStr ''Soup'')] = Some (JStr ''ann'')
   \<and> ''bob'' \<noteq> ''ann''
   \<and> outcome_of (update \<lparr>auth = Some ''bob'', params_id = 0,
        body_food = Some [(''title'', JStr ''Mud'')]\<rparr> no_faults soup_db) = Next Forbidden
   \<and> db_of (update \<lparr>auth = Some ''bob'', params_id = 0,
        body_food = Some [(''title'', JStr ''Mud'')]\<rparr> no_faults soup_db) = soup_db
   \<and> outcome_of (destroy \<lparr>auth = Some ''bob'', params_id = 0,
        body_food = Some [(''title'', JStr ''Mud'')]\<rparr> no_faults soup_db) = Next Forbidden
   \<and> db_of (destroy \<lparr>auth = Some ''bob'', params_id = 0,
        body_food = Some [(''title'', JStr ''Mud'')]\<rparr> no_faults soup_db) = soup_db"
  using non_owner_cannot_mutate
    [of soup_db
        "\<lparr>auth = Some ''bob'', params_id = 0, body_food = Some [(''title'', JStr ''Mud'')]\<rparr>"
        "[(''owner'', JStr ''ann''), (''title'', JStr ''Soup'')]" "''ann''" "''bob''" no_faults]
  by (simp add: soup_db_def owner_of_def no_faults_def)

section \<open>The creator becomes the owner\<close>

text \<open>
  Claim C2. An authenticated \<open>POST /foods\<close> succeeds exactly when the body has a food
  and the store accepts it. Whenever it answers, the status is 201, the food in the
  answer has the caller as its owner whatever owner the payload named, and that food is
  the one record added to the store.
\<close>

theorem create_sets_owner:
  assumes "auth req = Some u"
  shows "((\<exists>b. outcome_of (create req ev s) = Respond 201 b) \<longleftrightarrow>
            body_food req \<noteq> None \<and> write_fault ev = None)
       \<and> (\<forall>c b. outcome_of (create req ev s) = Respond c b \<longrightarrow>
            c = 201 \<and>
            (\<exists>d. b = JsonFood d \<and> owner_of (snd d) = Some (JStr u)
                \<and> foods (db_of (create req ev s)) = foods s @ [d]))"
proof (cases "body_food req")
  case None
  then show ?thesis using assms by (simp add: create_no_food outcome_of_def)
next
  case (Some p)
  then show ?thesis using assms
    by (auto simp add: create_cases outcome_of_def db_of_def owner_of_def AList.update_conv'
        split: option.splits)
qed

theorem create_sets_owner_witness:
  "auth \<lparr>auth = Some ''bob'', params_id = 0,
          body_food = Some [(''title'', JStr ''Soup''), (''owner'', JStr ''ann'')]\<rparr>
     = Some ''bob''
   \<and> outcome_of (create \<lparr>auth = Some ''bob'', params_id = 0,
          body_food = Some [(''title'', JStr ''Soup''), (''owner'', JStr ''ann'')]\<rparr>
        no_faults soup_db)
       = Respond 201 (JsonFood (1, [(''title'', JStr ''Soup''), (''owner'', JStr ''bob'')]))
   \<and> owner_of (snd (1::nat, [(''title'', JStr ''Soup''), (''owner'', JStr ''bob'')]))
       = Some (JStr ''bob'')
   \<and> foods (db_of (create \<lparr>auth = Some ''bob'', params_id = 0,
          body_food = Some [(''title'', JStr ''Soup''), (''owner'', JStr ''ann'')]\<rparr>
        no_faults soup_db))
       = foods soup_db @ [(1, [(''title'', JStr ''Soup''), (''owner'', JStr ''bob'')])]"
proof -
  have h: "outcome_of (create \<lparr>auth = Some ''bob'', params_id = 0,
          body_food = Some [(''title'', JStr ''Soup''), (''owner'', JStr ''ann'')]\<rparr>
        no_faults soup_db)
       = Respond 201 (JsonFood (1, [(''title'', JStr ''Soup''), (''owner'', JStr ''bob'')]))"
    by (simp add: create_cases outcome_of_def no_faults_def soup_db_def)
  show ?thesis
    using h
      create_sets_owner
        [of "\<lparr>auth = Some ''bob'', params_id = 0,
              body_food = Some [(''title'', JStr ''Soup''), (''owner'', JStr ''ann'')]\<rparr>"
            "''bob''" no_faults soup_db]
    by (auto simp add: owner_of_def)
qed

section \<open>A failed deletion\<close>

lemma store_failures_forwarded:
  "find_fault ev = Some e \<Longrightarrow> outcome_of (index req ev s) = Next e"
  "find_fault ev = Some e \<Longrightarrow> outcome_of (show req ev s) = Next e"
  "auth req = Some u \<Longrightarrow> body_food req = Some p \<Longrightarrow> write_fault ev = Some e \<Longrightarrow>
     outcome_of (create req ev s) = Next e"
  "auth req = Some u \<Longrightarrow> body_food req = Some p \<Longrightarrow> find_fault ev = Some e \<Longrightarrow>
     outcome_of (update req ev s) = Next e"
  "auth req = Some u \<Longrightarrow> body_food req = Some p \<Longrightarrow> find_fault ev = None \<Longrightarrow>
     map_of (foods s) (params_id req) = Some fs \<Longrightarrow> owner_of fs = Some (JStr u) \<Longrightarrow>
     write_fault ev = Some e \<Longrightarrow> outcome_of (update req ev s) = Next e"
  "auth req = Some u \<Longrightarrow> find_fault ev = Some e \<Longrightarrow> outcome_of (destroy req ev s) = Next e"
  by (simp_all add: index_cases show_cases create_cases update_cases destroy_cases
      outcome_of_def)

text \<open>
  Claim C4. Every failure of a store call is to reach \<open>next\<close>, and no success status is
  to follow a failed store operation. \<open>DELETE /foods/:id\<close> does not keep to it: when
  the owner deletes a food and the store rejects the deletion, the route calls
  \<open>deleteOne\<close>, the food stays in the store, and the answer is 204. \<open>PATCH\<close> on the
  same food with the same store failure hands the error to \<open>next\<close>.
\<close>

theorem destroy_swallows_delete_failure:
  "outcome_of (destroy \<lparr>auth = Some ''ann'', params_id = 0, body_food = None\<rparr>
      \<lparr>find_fault = None, write_fault = Some Internal\<rparr> soup_db) = Respond 204 NoContent
   \<and> db_of (destroy \<lparr>auth = Some ''ann'', params_id = 0, body_food = None\<rparr>
      \<lparr>find_fault = None, write_fault = Some Internal\<rparr> soup_db) = soup_db
   \<and> CallDeleteOne 0 \<in> set (trace_of
      (destroy \<lparr>auth = Some ''ann'', params_id = 0, body_food = None\<rparr>
        \<lparr>find_fault = None, write_fault = Some Internal\<rparr> soup_db))
   \<and> outcome_of (update \<lparr>auth = Some ''ann'', params_id = 0,
        body_food = Some [(''title'', JStr ''Stew'')]\<rparr>
      \<lparr>find_fault = None, write_fault = Some Internal\<rparr> soup_db) = Next Internal"
  by (simp add: destroy_cases update_cases result_defs soup_db_def owner_of_def)

section \<open>Sanitizing the update payload\<close>

lemma removeBlanks_delete:
  "AList.delete k (removeBlanks p) = removeBlanks (AList.delete k p)"
  by (induction p rule: removeBlanks.induct) (auto simp add: AList.delete_eq)

lemma removeBlanks_filter_map:
  "removeBlanks p =
     map (\<lambda>(k, v). (k, case v of JObj fs \<Rightarrow> JObj (removeBlanks fs) | _ \<Rightarrow> v))
       (filter (\<lambda>(k, v). v \<noteq> JStr []) p)"
  by (induction p rule: removeBlanks.induct) simp_all

lemma map_of_merge:
  "map_of (AList.merge fs q) k =
     (case map_of q k of Some v \<Rightarrow> Some v | None \<Rightarrow> map_of fs k)"
  by (simp add: AList.merge_conv' map_add_def)

text \<open>
  Claim C5, as stated: in \<open>PATCH /foods/:id\<close> the owner key is stripped first and the
  empty-string fields second. The route does it the other way round: for a payload with
  an owner and a blank title, the owner is not stripped before the blanks are.
\<close>

theorem update_strips_owner_first_counterexample:
  "\<not> precedes DeleteOwner RemoveBlanks
       (trace_of (update \<lparr>auth = Some ''ann'', params_id = 0,
            body_food = Some [(''owner'', JStr ''bob''), (''title'', JStr [])]\<rparr>
          no_faults soup_db))"
  by (simp add: update_cases trace_of_def no_faults_def soup_db_def owner_of_def)

text \<open>
  Claim C5, amended. In an authenticated \<open>PATCH /foods/:id\<close> whose body has a food,
  the empty-string fields are stripped first (by the middleware), the owner key is
  stripped second (by the handler), and the record is loaded third; the only call that
  can follow is the update with the sanitized payload, which is the payload the stated
  order would have produced.
\<close>

theorem update_sanitizes_before_load:
  assumes "auth req = Some u" and "body_food req = Some p"
  shows "precedes RemoveBlanks DeleteOwner (trace_of (update req ev s))
       \<and> precedes DeleteOwner (CallFindById (params_id req)) (trace_of (update req ev s))
       \<and> take 3 (trace_of (update req ev s))
           = [RemoveBlanks, DeleteOwner, CallFindById (params_id req)]
       \<and> set (drop 3 (trace_of (update req ev s)))
           \<subseteq> {CallUpdateOne (params_id req) (AList.delete ''owner'' (removeBlanks p))}
       \<and> AList.delete ''owner'' (removeBlanks p) = removeBlanks (AList.delete ''owner'' p)"
  using assms
  by (simp add: update_cases trace_of_def removeBlanks_delete split: option.splits)

theorem update_sanitizes_before_load_witness:
  "auth \<lparr>auth = Some ''ann'', params_id = 0,
          body_food = Some [(''owner'', JStr ''bob''), (''title'', JStr [])]\<rparr> = Some ''ann''
   \<and> trace_of (update \<lparr>auth = Some ''ann'', params_id = 0,
            body_food = Some [(''owner'', JStr ''bob''), (''title'', JStr [])]\<rparr>
          no_faults soup_db)
      = [RemoveBlanks, DeleteOwner, CallFindById 0, CallUpdateOne 0 []]
   \<and> precedes RemoveBlanks DeleteOwner
       (trace_of (update \<lparr>auth = Some ''ann'', params_id = 0,
            body_food = Some [(''owner'', JStr ''bob''), (''title'', JStr [])]\<rparr>
          no_faults soup_db))
   \<and> precedes DeleteOwner (CallFindById 0)
       (trace_of (update \<lparr>auth = Some ''ann'', params_id = 0,
            body_food = Some [(''owner'', JStr ''bob''), (''title'', JStr [])]\<rparr>
          no_faults soup_db))"
proof -
  have t: "trace_of (update \<lparr>auth = Some ''ann'', params_id = 0,
            body_food = Some [(''owner'', JStr ''bob''), (''title'', JStr [])]\<rparr>
          no_faults soup_db)
      = [RemoveBlanks, DeleteOwner, CallFindById 0, CallUpdateOne 0 []]"
    by (simp add: update_cases trace_of_def no_faults_def soup_db_def owner_of_def)
  show ?thesis
    using t
      update_sanitizes_before_load
        [of "\<lparr>auth = Some ''ann'', params_id = 0,
              body_food = Some [(''owner'', JStr ''bob''), (''title'', JStr [])]\<rparr>"
            "''ann''" "[(''owner'', JStr ''bob''), (''title'', JStr [])]" no_faults soup_db]
    by simp
qed

text \<open>
  Claim C6. When the owner patches an existing food and the store rejects nothing, the
  answer is 204. The sanitizer keeps exactly the entries whose value is not the empty
  string, in order, and goes on inside the values that are objects; every other value,
  arrays and \<open>0\<close>, \<open>false\<close>, \<open>null\<close> among them, is kept as it is. Each field of the
  stored food then has the value the sanitized payload gives it, and its prior value
  when the sanitized payload has none; the other foods are untouched. In particular the
  payload \<open>{title: "", text: "ok"}\<close> leaves the title as it was and sets the text to
  \<open>"ok"\<close>.
\<close>

theorem update_strips_blanks_and_merges:
  assumes "auth req = Some u" and "body_food req = Some p"
    and "map_of (foods s) (params_id req) = Some fs" and "owner_of fs = Some (JStr u)"
    and "find_fault ev = None" and "write_fault ev = None"
  shows "outcome_of (update req ev s) = Respond 204 NoContent
       \<and> removeBlanks p =
           map (\<lambda>(k, v). (k, case v of JObj fs \<Rightarrow> JObj (removeBlanks fs) | _ \<Rightarrow> v))
             (filter (\<lambda>(k, v). v \<noteq> JStr []) p)
       \<and> (\<exists>fs'. map_of (foods (db_of (update req ev s))) (params_id req) = Some fs'
             \<and> (\<forall>k. map_of fs' k =
                   (case map_of (AList.delete ''owner'' (removeBlanks p)) k of
                      Some v \<Rightarrow> Some v
                    | None \<Rightarrow> map_of fs k))
             \<and> (p = [(''title'', JStr []), (''text'', JStr ''ok'')] \<longrightarrow>
                   map_of fs' ''title'' = map_of fs ''title''
                 \<and> map_of fs' ''text'' = Some (JStr ''ok'')))
       \<and> (\<forall>j. j \<noteq> params_id req \<longrightarrow>
             map_of (foods (db_of (update req ev s))) j = map_of (foods s) j)"
proof -
  let ?q = "AList.delete ''owner'' (removeBlanks p)"
  have r: "update req ev s =
      (Respond 204 NoContent,
       s\<lparr>foods := AList.map_entry (params_id req) (\<lambda>fs. AList.merge fs ?q) (foods s)\<rparr>,
       [RemoveBlanks, DeleteOwner, CallFindById (params_id req),
        CallUpdateOne (params_id req) ?q])"
    using assms by (simp add: update_cases)
  have o: "outcome_of (update req ev s) = Respond 204 NoContent"
    by (simp add: r outcome_of_def)
  have st: "map_of (foods (db_of (update req ev s))) (params_id req)
      = Some (AList.merge fs ?q)"
    using assms(3) by (simp add: r db_of_def AList.map_of_map_entry)
  have m: "\<forall>k. map_of (AList.merge fs ?q) k =
      (case map_of ?q k of Some v \<Rightarrow> Some v | None \<Rightarrow> map_of fs k)"
    by (simp add: map_of_merge)
  have ex: "p = [(''title'', JStr []), (''text'', JStr ''ok'')] \<longrightarrow>
        map_of (AList.merge fs ?q) ''title'' = map_of fs ''title''
      \<and> map_of (AList.merge fs ?q) ''text'' = Some (JStr ''ok'')"
    by (simp add: AList.update_conv')
  have others: "\<forall>j. j \<noteq> params_id req \<longrightarrow>
        map_of (foods (db_of (update req ev s))) j = map_of (foods s) j"
    by (simp add: r db_of_def AList.map_of_map_entry)
  show ?thesis using o st m ex others removeBlanks_filter_map [of p] by simp
qed

theorem update_strips_blanks_and_merges_witness:
  "map_of (foods soup_db) 0 = Some [(''owner'', JStr ''ann''), (''title'', JStr ''Soup'')]
   \<and> owner_of [(''owner'', JStr ''ann''), (''title'', JStr ''Soup'')] = Some (JStr ''ann'')
   \<and> outcome_of (update \<lparr>auth = Some ''ann'', params_id = 0,
          body_food = Some [(''title'', JStr []), (''text'', JStr ''ok'')]\<rparr>
        no_faults soup_db) = Respond 204 NoContent
   \<and> removeBlanks [(''title'', JStr []), (''text'', JStr ''ok'')] = [(''text'', JStr ''ok'')]
   \<and> map_of (foods (db_of (update \<lparr>auth = Some ''ann'', params_id = 0,
          body_food = Some [(''title'', JStr []), (''text'', JStr ''ok'')]\<rparr>
        no_faults soup_db))) 0
       = Some [(''owner'', JStr ''ann''), (''title'', JStr ''Soup''), (''text'', JStr ''ok'')]"
proof -
  have e: "map_of (foods (db_of (update \<lparr>auth = Some ''ann'', params_id = 0,
          body_food = Some [(''title'', JStr []), (''text'', JStr ''ok'')]\<rparr>
        no_faults soup_db))) 0
       = Some [(''owner'', JStr ''ann''), (''title'', JStr ''Soup''), (''text'', JStr ''ok'')]"
    by (simp add: update_cases db_of_def no_faults_def soup_db_def owner_of_def AList.merge_def)
  show ?thesis
    using e
      update_strips_blanks_and_merges
        [of "\<lparr>auth = Some ''ann'', params_id = 0,
              body_food = Some [(''title'', JStr []), (''text'', JStr ''ok'')]\<rparr>"
            "''ann''" "[(''title'', JStr []), (''text'', JStr ''ok'')]" soup_db
            "[(''owner'', JStr ''ann''), (''title'', JStr ''Soup'')]" no_faults]
    by (simp add: soup_db_def owner_of_def no_faults_def)
qed

section \<open>The owner is fixed at creation\<close>

lemma db_index: "db_of (index req ev s) = s"
  by (simp add: index_cases db_of_def split: option.splits)

lemma db_show: "db_of (show req ev s) = s"
  by (simp add: show_cases db_of_def split: option.splits)

lemma db_create:
  "db_of (create req ev s) = s
   \<or> (\<exists>u p. db_of (create req ev s) =
         s\<lparr>foods := foods s @ [(next_id s, AList.update ''owner'' (JStr u) p)],
           next_id := Suc (next_id s)\<rparr>)"
proof (cases "auth req")
  case None
  then show ?thesis by (simp add: create_no_token db_of_def)
next
  case (Some u)
  note au = this
  show ?thesis
  proof (cases "body_food req")
    case None
    then show ?thesis using au by (simp add: create_no_food db_of_def)
  next
    case (Some p)
    note bp = this
    show ?thesis
    proof (cases "write_fault ev")
      case None
      then have "db_of (create req ev s) =
         s\<lparr>foods := foods s @ [(next_id s, AList.update ''owner'' (JStr u) p)],
           next_id := Suc (next_id s)\<rparr>"
        using au bp by (simp add: create_cases db_of_def)
      then show ?thesis by blast
    next
      case (Some e)
      then show ?thesis using au bp by (simp add: create_cases db_of_def)
    qed
  qed
qed

lemma db_update:
  "db_of (update req ev s) = s
   \<or> (\<exists>q. db_of (update req ev s) =
         s\<lparr>foods := AList.map_entry (params_id req)
              (\<lambda>fs. AList.merge fs (AList.delete ''owner'' q)) (foods s)\<rparr>)"
proof (cases "auth req")
  case None
  then show ?thesis by (simp add: update_no_token db_of_def)
next
  case (Some u)
  note au = this
  show ?thesis
  proof (cases "body_food req")
    case None
    then show ?thesis using au by (simp add: update_no_food db_of_def)
  next
    case (Some p)
    have "db_of (update req ev s) = s
      \<or> db_of (update req ev s) =
         s\<lparr>foods := AList.map_entry (params_id req)
              (\<lambda>fs. AList.merge fs (AList.delete ''owner'' (removeBlanks p))) (foods s)\<rparr>"
      using au Some by (simp add: update_cases db_of_def split: option.splits)
    then show ?thesis by blast
  qed
qed

lemma db_destroy:
  "db_of (destroy req ev s) = s
   \<or> db_of (destroy req ev s) = s\<lparr>in_flight := in_flight s @ [params_id req]\<rparr>"
proof (cases "auth req")
  case None
  then show ?thesis by (simp add: destroy_no_token db_of_def)
next
  case (Some u)
  then show ?thesis by (simp add: destroy_cases db_of_def split: option.splits)
qed

text \<open>
  A request leaves the foods alone, appends one or merges into one; a deletion that
  lands removes one.
\<close>

lemma foods_handle:
  "(foods (db_of (handle r req ev s)) = foods s
      \<and> next_id (db_of (handle r req ev s)) = next_id s)
   \<or> (\<exists>u p. foods (db_of (handle r req ev s))
                = foods s @ [(next_id s, AList.update ''owner'' (JStr u) p)]
          \<and> next_id (db_of (handle r req ev s)) = Suc (next_id s))
   \<or> (\<exists>i q. foods (db_of (handle r req ev s))
                = AList.map_entry i (\<lambda>fs. AList.merge fs (AList.delete ''owner'' q)) (foods s)
          \<and> next_id (db_of (handle r req ev s)) = next_id s)"
proof (cases r)
  case Index
  then show ?thesis by (simp add: db_index)
next
  case Show
  then show ?thesis by (simp add: db_show)
next
  case Create
  from db_create [of req ev s] show ?thesis
  proof
    assume "db_of (create req ev s) = s"
    then show ?thesis using Create by simp
  next
    assume "\<exists>u p. db_of (create req ev s) =
         s\<lparr>foods := foods s @ [(next_id s, AList.update ''owner'' (JStr u) p)],
           next_id := Suc (next_id s)\<rparr>"
    then obtain u p where "db_of (create req ev s) =
         s\<lparr>foods := foods s @ [(next_id s, AList.update ''owner'' (JStr u) p)],
           next_id := Suc (next_id s)\<rparr>"
      by blast
    then have "foods (db_of (handle r req ev s))
          = foods s @ [(next_id s, AList.update ''owner'' (JStr u) p)]
        \<and> next_id (db_of (handle r req ev s)) = Suc (next_id s)"
      using Create by simp
    then show ?thesis by blast
  qed
next
  case Update
  from db_update [of req ev s] show ?thesis
  proof
    assume "db_of (update req ev s) = s"
    then show ?thesis using Update by simp
  next
    assume "\<exists>q. db_of (update req ev s) =
         s\<lparr>foods := AList.map_entry (params_id req)
              (\<lambda>fs. AList.merge fs (AList.delete ''owner'' q)) (foods s)\<rparr>"
    then obtain q where "db_of (update req ev s) =
         s\<lparr>foods := AList.map_entry (params_id req)
              (\<lambda>fs. AList.merge fs (AList.delete ''owner'' q)) (foods s)\<rparr>"
      by blast
    then have "foods (db_of (handle r req ev s))
          = AList.map_entry (params_id req)
              (\<lambda>fs. AList.merge fs (AList.delete ''owner'' q)) (foods s)
        \<and> next_id (db_of (handle r req ev s)) = next_id s"
      using Update by simp
    then show ?thesis by blast
  qed
next
  case Destroy
  then show ?thesis using db_destroy [of req ev s] by auto
qed

lemma foods_land:
  "(foods (land i s) = foods s \<or> foods (land i s) = AList.delete i (foods s))
   \<and> next_id (land i s) = next_id s"
  by (simp add: land_def)

lemma owner_of_merge_no_owner:
  "owner_of (AList.merge fs (AList.delete ''owner'' q)) = owner_of fs"
  by (simp add: owner_of_def AList.merge_conv' AList.delete_conv' map_add_def)

lemma owner_kept_handle:
  assumes "owner_kept s i ow"
  shows "owner_kept (db_of (handle r req ev s)) i ow"
proof -
  let ?s' = "db_of (handle r req ev s)"
  have fresh: "\<And>j. next_id s \<le> j \<Longrightarrow> map_of (foods s) j = None"
    and lt: "i < next_id s"
    and ow: "\<And>fs. map_of (foods s) i = Some fs \<Longrightarrow> owner_of fs = ow"
    using assms by (simp_all add: owner_kept_def ids_fresh_def)
  consider (same) "foods ?s' = foods s" "next_id ?s' = next_id s"
    | (created) u p where
        "foods ?s' = foods s @ [(next_id s, AList.update ''owner'' (JStr u) p)]"
        "next_id ?s' = Suc (next_id s)"
    | (updated) j q where
        "foods ?s' = AList.map_entry j
            (\<lambda>fs. AList.merge fs (AList.delete ''owner'' q)) (foods s)"
        "next_id ?s' = next_id s"
    using foods_handle [of r req ev s] by blast
  then show ?thesis
  proof cases
    case same
    then show ?thesis using fresh lt ow
      by (simp add: owner_kept_def ids_fresh_def)
  next
    case created
    then show ?thesis using fresh lt ow
      by (auto simp add: owner_kept_def ids_fresh_def map_add_def split: option.splits)
  next
    case updated
    then show ?thesis using fresh lt ow
      by (auto simp add: owner_kept_def ids_fresh_def AList.map_of_map_entry
          owner_of_merge_no_owner split: option.splits if_splits)
  qed
qed

lemma owner_kept_land:
  assumes "owner_kept s i ow"
  shows "owner_kept (land j s) i ow"
  using assms foods_land [of j s]
  by (auto simp add: owner_kept_def ids_fresh_def AList.delete_conv' split: if_splits)

lemma owner_kept_step: "owner_kept s i ow \<Longrightarrow> owner_kept (step_db c s) i ow"
  by (cases c) (simp_all add: owner_kept_handle owner_kept_land)

lemma owner_kept_run: "owner_kept s i ow \<Longrightarrow> owner_kept (run cs s) i ow"
proof (induction cs arbitrary: s)
  case Nil
  then show ?case by simp
next
  case (Cons c cs)
  from Cons.prems have "owner_kept (step_db c s) i ow"
    by (rule owner_kept_step)
  then show ?case using Cons.IH by simp
qed

lemma ids_fresh_step: "ids_fresh s \<Longrightarrow> ids_fresh (step_db c s)"
proof (cases c)
  case (Request r req ev)
  assume "ids_fresh s"
  then show ?thesis using Request foods_handle [of r req ev s]
    by (auto simp add: ids_fresh_def map_add_def AList.map_of_map_entry
        split: option.splits)
next
  case (Landed j)
  assume "ids_fresh s"
  then show ?thesis using Landed foods_land [of j s]
    by (auto simp add: ids_fresh_def AList.delete_conv')
qed

lemma ids_fresh_run: "ids_fresh s \<Longrightarrow> ids_fresh (run cs s)"
proof (induction cs arbitrary: s)
  case Nil
  then show ?case by simp
next
  case (Cons c cs)
  from Cons.prems have "ids_fresh (step_db c s)"
    by (rule ids_fresh_step)
  then show ?case using Cons.IH by simp
qed

lemma ids_fresh_init: "ids_fresh (init_db us)"
  by (simp add: ids_fresh_def init_db_def)

lemma existing_owner_kept:
  assumes "ids_fresh s" and "map_of (foods s) i = Some fs"
  shows "owner_kept s i (owner_of fs)"
proof -
  have "i < next_id s"
  proof (rule ccontr)
    assume "\<not> i < next_id s"
    then have "map_of (foods s) i = None" using assms(1) by (simp add: ids_fresh_def)
    then show False using assms(2) by simp
  qed
  then show ?thesis using assms by (simp add: owner_kept_def)
qed

lemma created_owner_kept:
  assumes "ids_fresh s" and "auth req = Some u"
    and "outcome_of (create req ev s) = Respond 201 (JsonFood d)"
  shows "owner_kept (db_of (create req ev s)) (fst d) (Some (JStr u))"
proof (cases "body_food req")
  case None
  then show ?thesis using assms by (simp add: create_no_food outcome_of_def)
next
  case (Some p)
  then show ?thesis using assms
    by (auto simp add: create_cases result_defs owner_kept_def ids_fresh_def map_add_def
        owner_of_def AList.update_conv' split: option.splits)
qed

lemma update_keeps_record:
  assumes "map_of (foods s) (params_id req) = Some fs"
  shows "\<exists>fs'. map_of (foods (db_of (update req ev s))) (params_id req) = Some fs'
             \<and> owner_of fs' = owner_of fs"
proof (cases "auth req")
  case None
  then show ?thesis using assms by (simp add: update_no_token db_of_def)
next
  case (Some u)
  note au = this
  show ?thesis
  proof (cases "body_food req")
    case None
    then show ?thesis using assms au by (simp add: update_no_food db_of_def)
  next
    case (Some p)
    then show ?thesis using assms au
      by (simp add: update_cases db_of_def AList.map_of_map_entry owner_of_merge_no_owner
          split: option.splits)
  qed
qed

text \<open>
  Claim C1. Let \<open>s\<close> be a store reached from the empty one by any sequence of API
  calls, with any tokens, payloads and store failures, and with the deletions in flight
  landing whenever they do. A food that a \<open>POST /foods\<close> by
  user \<open>u\<close> creates in \<open>s\<close> has the owner \<open>u\<close> after every further sequence of calls,
  as long as it exists; a food of \<open>s\<close> has the same owner after every further sequence
  of calls, as long as it exists; and a \<open>PATCH /foods/:id\<close> on a food of \<open>s\<close>, whatever
  its payload (an owner key included), leaves the food in the store with the owner it
  had.
\<close>

theorem owner_never_changes:
  assumes "s = run cs0 (init_db us)"
  shows "(\<forall>req ev u d cs fs.
            auth req = Some u
          \<and> outcome_of (create req ev s) = Respond 201 (JsonFood d)
          \<and> map_of (foods (run cs (db_of (create req ev s)))) (fst d) = Some fs
          \<longrightarrow> owner_of fs = Some (JStr u))
       \<and> (\<forall>i fs cs fs'.
            map_of (foods s) i = Some fs \<and> map_of (foods (run cs s)) i = Some fs'
          \<longrightarrow> owner_of fs' = owner_of fs)
       \<and> (\<forall>req ev fs.
            map_of (foods s) (params_id req) = Some fs
          \<longrightarrow> (\<exists>fs'. map_of (foods (db_of (update req ev s))) (params_id req) = Some fs'
                   \<and> owner_of fs' = owner_of fs))"
proof -
  have fr: "ids_fresh s" using assms ids_fresh_init ids_fresh_run by simp
  have a: "owner_of fs = Some (JStr u)"
    if "auth req = Some u" "outcome_of (create req ev s) = Respond 201 (JsonFood d)"
       "map_of (foods (run cs (db_of (create req ev s)))) (fst d) = Some fs"
    for req ev u d cs fs
  proof -
    have "owner_kept (db_of (create req ev s)) (fst d) (Some (JStr u))"
      using fr that(1,2) by (rule created_owner_kept)
    then have "owner_kept (run cs (db_of (create req ev s))) (fst d) (Some (JStr u))"
      by (rule owner_kept_run)
    then show ?thesis using that(3) by (simp add: owner_kept_def)
  qed
  have b: "owner_of fs' = owner_of fs"
    if "map_of (foods s) i = Some fs" "map_of (foods (run cs s)) i = Some fs'"
    for i fs cs fs'
  proof -
    have "owner_kept s i (owner_of fs)" using fr that(1) by (rule existing_owner_kept)
    then have "owner_kept (run cs s) i (owner_of fs)" by (rule owner_kept_run)
    then show ?thesis using that(2) by (simp add: owner_kept_def)
  qed
  show ?thesis using a b update_keeps_record by blast
qed

theorem owner_never_changes_witness:
  "soup_db = run [Request Create \<lparr>auth = Some ''ann'', params_id = 0,
                     body_food = Some [(''owner'', JStr ''bob''), (''title'', JStr ''Soup'')]\<rparr>
                   no_faults]
               (init_db [])
   \<and> map_of (foods soup_db) 0 = Some [(''owner'', JStr ''ann''), (''title'', JStr ''Soup'')]
   \<and> map_of (foods (run [Request Update \<lparr>auth = Some ''ann'', params_id = 0,
                     body_food = Some [(''owner'', JStr ''bob''), (''title'', JStr ''Stew'')]\<rparr>
                   no_faults]
               soup_db)) 0 = Some [(''owner'', JStr ''ann''), (''title'', JStr ''Stew'')]
   \<and> owner_of [(''owner'', JStr ''ann''), (''title'', JStr ''Stew'')]
       = owner_of [(''owner'', JStr ''ann''), (''title'', JStr ''Soup'')]"
proof -
  have c: "soup_db = run [Request Create \<lparr>auth = Some ''ann'', params_id = 0,
                     body_food = Some [(''owner'', JStr ''bob''), (''title'', JStr ''Soup'')]\<rparr>
                   no_faults]
               (init_db [])"
    by (simp add: create_cases db_of_def no_faults_def soup_db_def init_db_def)
  have a: "map_of (foods soup_db) 0
      = Some [(''owner'', JStr ''ann''), (''title'', JStr ''Soup'')]"
    by (simp add: soup_db_def)
  have b: "map_of (foods (run [Request Update \<lparr>auth = Some ''ann'', params_id = 0,
                     body_food = Some [(''owner'', JStr ''bob''), (''title'', JStr ''Stew'')]\<rparr>
                   no_faults]
               soup_db)) 0 = Some [(''owner'', JStr ''ann''), (''title'', JStr ''Stew'')]"
    by (simp add: update_cases db_of_def no_faults_def soup_db_def owner_of_def AList.merge_def)
  from owner_never_changes [OF c] a b
  have "owner_of [(''owner'', JStr ''ann''), (''title'', JStr ''Stew'')]
       = owner_of [(''owner'', JStr ''ann''), (''title'', JStr ''Soup'')]"
    by blast
  then show ?thesis using a b c by simp
qed

end
